theory Spec2Isabelle
  imports Main "HOL-Library.Word" "HOL-Library.AList" "HOL-Library.Sublist"
begin

section \<open>The quiz generator: \<^verbatim>\<open>supabase/functions/generate-quiz/index.ts\<close>\<close>

text \<open>
  The handler is one linear request/response function. It talks to the outside through
  the URL constructor, \<^verbatim>\<open>fetch\<close>, the DOM parser, the process environment and
  \<^verbatim>\<open>JSON.parse\<close>. These are routines of the runtime, not of the repository: they
  are the fields of the record \<open>platform\<close>, and every theorem below holds for whatever
  they answer. What the handler computes itself (the checks, the string functions, the
  paragraph filter, the fence match, the mapping of failures to status codes) is defined
  here, statement by statement. Console output is left out.
\<close>

subsection \<open>Strings and values\<close>

text \<open>
  A string of the runtime is a sequence of UTF-16 code units: \<^verbatim>\<open>length\<close>,
  \<^verbatim>\<open>slice\<close> and \<^verbatim>\<open>trim\<close> count and cut code units.
\<close>

type_synonym code_unit = "16 word"
type_synonym jsstring = "code_unit list"

definition js :: "string \<Rightarrow> jsstring" where
  "js s = map of_char s"

definition LF :: code_unit where
  "LF = 0x0A"

text \<open>
  A value as \<^verbatim>\<open>JSON.parse\<close> builds it. A number is the bit pattern of its double.
  An object is the list of its properties, one entry for each key, in the order in which
  the properties are enumerated (a property added under a name that is no array index
  comes last). The value \<^verbatim>\<open>undefined\<close> is \<open>None\<close> of \<open>json option\<close>.
\<close>

datatype json =
    JNull
  | JBool bool
  | JNum "64 word"
  | JStr jsstring
  | JArr "json list"
  | JObj "(jsstring \<times> json) list"

text \<open>
  What \<^verbatim>\<open>JSON.stringify\<close> writes of such a value, given as the value that the
  written text stands for. Strings, booleans, \<^verbatim>\<open>null\<close> and finite numbers are
  written as they are; an infinity or a NaN (exponent bits all set) is written as
  \<^verbatim>\<open>null\<close>, and negative zero as \<^verbatim>\<open>0\<close>; arrays and objects are written
  element by element, in order.
\<close>

definition non_finite :: "64 word \<Rightarrow> bool" where
  "non_finite d \<longleftrightarrow> 0x7FF0000000000000 \<le> and d 0x7FFFFFFFFFFFFFFF"

fun as_sent :: "json \<Rightarrow> json" where
  "as_sent JNull = JNull"
| "as_sent (JBool b) = JBool b"
| "as_sent (JNum d) =
     (if non_finite d then JNull else if d = 0x8000000000000000 then JNum 0 else JNum d)"
| "as_sent (JStr s) = JStr s"
| "as_sent (JArr xs) = JArr (map as_sent xs)"
| "as_sent (JObj kvs) = JObj (map (\<lambda>(k, v). (k, as_sent v)) kvs)"

text \<open>Truthiness, as \<^verbatim>\<open>!wikipediaUrl\<close> tests it: zero (of either sign) and NaN are falsy.\<close>

fun truthy :: "json \<Rightarrow> bool" where
  "truthy JNull = False"
| "truthy (JBool b) = b"
| "truthy (JNum d) = (and d 0x7FFFFFFFFFFFFFFF \<noteq> 0 \<and> and d 0x7FFFFFFFFFFFFFFF \<le> 0x7FF0000000000000)"
| "truthy (JStr s) = (s \<noteq> [])"
| "truthy (JArr xs) = True"
| "truthy (JObj kvs) = True"

text \<open>
  What the engine throws by itself: reading a property of \<^verbatim>\<open>null\<close> or
  \<^verbatim>\<open>undefined\<close>, writing a property of \<^verbatim>\<open>null\<close> or of a primitive
  (the module is strict code), and a body that is not JSON. The text of such an error is
  the engine's: \<open>engine_message\<close> of the platform.
\<close>

datatype fault =
    ReadProperty "json option" jsstring
  | SetProperty json jsstring
  | JsonSyntax jsstring

text \<open>A thrown value: an instance of \<^verbatim>\<open>Error\<close> with its message, or anything else.\<close>

datatype thrown = ErrorObj jsstring | OtherValue

text \<open>
  Property reads \<^verbatim>\<open>v.k\<close> for a name \<open>k\<close> that no prototype defines
  (\<^verbatim>\<open>wikipediaUrl\<close>, \<^verbatim>\<open>choices\<close>, \<^verbatim>\<open>message\<close>, \<^verbatim>\<open>content\<close>),
  and the read \<^verbatim>\<open>v[0]\<close>.
\<close>

fun get_named :: "jsstring \<Rightarrow> json option \<Rightarrow> fault + json option" where
  "get_named k None = Inl (ReadProperty None k)"
| "get_named k (Some JNull) = Inl (ReadProperty (Some JNull) k)"
| "get_named k (Some (JObj kvs)) = Inr (map_of kvs k)"
| "get_named k (Some v) = Inr None"

fun get_index0 :: "json option \<Rightarrow> fault + json option" where
  "get_index0 None = Inl (ReadProperty None (js ''0''))"
| "get_index0 (Some JNull) = Inl (ReadProperty (Some JNull) (js ''0''))"
| "get_index0 (Some (JArr xs)) = Inr (case xs of [] \<Rightarrow> None | x # _ \<Rightarrow> Some x)"
| "get_index0 (Some (JStr s)) = Inr (case s of [] \<Rightarrow> None | c # _ \<Rightarrow> Some (JStr [c]))"
| "get_index0 (Some (JObj kvs)) = Inr (map_of kvs (js ''0''))"
| "get_index0 (Some v) = Inr None"

subsection \<open>String functions of the runtime that the handler calls\<close>

text \<open>\<^verbatim>\<open>String.prototype.trim\<close>: white space and line terminators go, at both ends.\<close>

definition is_space :: "code_unit \<Rightarrow> bool" where
  "is_space c \<longleftrightarrow>
     c \<in> {0x09, 0x0A, 0x0B, 0x0C, 0x0D, 0x20, 0xA0, 0x1680, 0x2028, 0x2029,
          0x202F, 0x205F, 0x3000, 0xFEFF}
     \<or> (0x2000 \<le> c \<and> c \<le> 0x200A)"

definition trim :: "jsstring \<Rightarrow> jsstring" where
  "trim s = rev (dropWhile is_space (rev (dropWhile is_space s)))"

text \<open>\<^verbatim>\<open>s.endsWith(suf)\<close>.\<close>

definition endsWith :: "jsstring \<Rightarrow> jsstring \<Rightarrow> bool" where
  "endsWith s suf \<longleftrightarrow> length suf \<le> length s \<and> drop (length s - length suf) s = suf"

text \<open>
  \<^verbatim>\<open>Array.prototype.join\<close>: an element that is \<^verbatim>\<open>undefined\<close> counts as
  the empty string.
\<close>

definition str_of :: "jsstring option \<Rightarrow> jsstring" where
  "str_of x = (case x of None \<Rightarrow> [] | Some s \<Rightarrow> s)"

fun join :: "jsstring \<Rightarrow> jsstring option list \<Rightarrow> jsstring" where
  "join sep [] = []"
| "join sep [x] = str_of x"
| "join sep (x # y # ys) = str_of x @ sep @ join sep (y # ys)"

text \<open>\<^verbatim>\<open>s.slice(0, n)\<close> for a count \<open>n\<close>.\<close>

definition slice0 :: "nat \<Rightarrow> jsstring \<Rightarrow> jsstring" where
  "slice0 n s = take n s"

text \<open>
  The two patterns of the response parser, \<^verbatim>\<open>/```json\n([\s\S]*?)\n```/\<close> and
  \<^verbatim>\<open>/```\n([\s\S]*?)\n```/\<close>, are an opening literal, a lazy run of any code
  units (the group) and the closing literal. \<^verbatim>\<open>match\<close> returns the leftmost
  match: it starts at the first place where the opening literal stands and the closing
  literal follows somewhere behind it, and the lazy group ends at the first such closing
  literal. If no closing literal follows the first opening literal, none follows a later
  one, so the search for the opening literal need not be resumed.
\<close>

fun find_sub :: "'a list \<Rightarrow> 'a list \<Rightarrow> ('a list \<times> 'a list) option" where
  "find_sub pat [] = (if pat = [] then Some ([], []) else None)"
| "find_sub pat (x # xs) =
     (if prefix pat (x # xs) then Some ([], drop (length pat) (x # xs))
      else (case find_sub pat xs of
              None \<Rightarrow> None
            | Some (before, after) \<Rightarrow> Some (x # before, after)))"

definition fence_close :: jsstring where
  "fence_close = LF # js ''```''"

definition fence_json :: jsstring where
  "fence_json = js ''```json'' @ [LF]"

definition fence_plain :: jsstring where
  "fence_plain = js ''```'' @ [LF]"

definition match_fence :: "jsstring \<Rightarrow> jsstring \<Rightarrow> jsstring option" where
  "match_fence opening s =
     (case find_sub opening s of
        None \<Rightarrow> None
      | Some (before, rest) \<Rightarrow>
          (case find_sub fence_close rest of
             None \<Rightarrow> None
           | Some (inner, after) \<Rightarrow> Some inner))"

subsection \<open>The outside world\<close>

record url =
  hostname :: jsstring
  protocol :: jsstring

text \<open>
  What a \<^verbatim>\<open>fetch\<close> brings back, body read: the status and the body text. A
  \<^verbatim>\<open>fetch\<close> that throws and a body that cannot be read both leave the handler
  through its outer \<^verbatim>\<open>catch\<close> with the thrown value, so they are one outcome.
\<close>

record fetched =
  http_status :: nat
  http_text :: jsstring

definition ok :: "fetched \<Rightarrow> bool" where
  "ok r \<longleftrightarrow> 200 \<le> http_status r \<and> http_status r \<le> 299"

text \<open>
  A network call with its arguments: the GET of the article (the argument is the value
  the caller sent), and the POST with its address, headers and the body handed to
  \<^verbatim>\<open>JSON.stringify\<close> (strings and the one finite number 0.7, all written as
  they are).
\<close>

datatype net_call =
    Get json
  | Post jsstring "(jsstring \<times> jsstring) list" json

text \<open>
  The parsed page, as far as the handler asks: the element \<^verbatim>\<open>#firstHeading\<close>
  if there is one, and the \<^verbatim>\<open>p\<close> elements inside the first
  \<^verbatim>\<open>#mw-content-text .mw-parser-output\<close> if there is one.
\<close>

record element =
  textContent :: "jsstring option"

record document =
  firstHeading :: "element option"
  contentDiv :: "element list option"

record platform =
  new_URL :: "json \<Rightarrow> url option"
  fetch :: "net_call \<Rightarrow> thrown + fetched"
  parseFromString :: "jsstring \<Rightarrow> document option"
  env_LOVABLE_API_KEY :: "jsstring option"
  JSON_parse :: "jsstring \<Rightarrow> json option"
  engine_message :: "fault \<Rightarrow> jsstring"

record request =
  req_method :: jsstring
  req_json :: "thrown + json"

record response =
  status :: nat
  headers :: "(jsstring \<times> jsstring) list"
  body :: "json option"

text \<open>
  The body of a response is the text sent, given as the value it stands for; \<open>None\<close>
  is the \<^verbatim>\<open>null\<close> body. Every body but that one is written by
  \<^verbatim>\<open>JSON.stringify\<close>.
\<close>

definition corsHeaders :: "(jsstring \<times> jsstring) list" where
  "corsHeaders =
     [(js ''Access-Control-Allow-Origin'', js ''*''),
      (js ''Access-Control-Allow-Headers'',
       js ''authorization, x-client-info, apikey, content-type'')]"

definition json_response :: "nat \<Rightarrow> json \<Rightarrow> response" where
  "json_response st v =
     \<lparr>status = st,
      headers = corsHeaders @ [(js ''Content-Type'', js ''application/json'')],
      body = Some (as_sent v)\<rparr>"

definition error_body :: "jsstring \<Rightarrow> json" where
  "error_body msg = JObj [(js ''error'', JStr msg)]"

subsection \<open>Control flow\<close>

text \<open>
  A statement goes on with a value, returns a response, or throws. The log of network
  calls is passed along.
\<close>

datatype 'a step = Next 'a | Return response | Throw thrown

type_synonym 'a io = "net_call list \<Rightarrow> 'a step \<times> net_call list"

definition pure :: "'a step \<Rightarrow> 'a io" where
  "pure s log = (s, log)"

definition and_then :: "'a io \<Rightarrow> ('a \<Rightarrow> 'b io) \<Rightarrow> 'b io" where
  "and_then m f log =
     (case m log of
        (Next x, log') \<Rightarrow> f x log'
      | (Return r, log') \<Rightarrow> (Return r, log')
      | (Throw e, log') \<Rightarrow> (Throw e, log'))"

definition do_fetch :: "platform \<Rightarrow> net_call \<Rightarrow> fetched io" where
  "do_fetch w c log =
     ((case fetch w c of Inl e \<Rightarrow> Throw e | Inr r \<Rightarrow> Next r), log @ [c])"

definition of_fault :: "platform \<Rightarrow> fault + 'a \<Rightarrow> 'a step" where
  "of_fault w x = (case x of Inl f \<Rightarrow> Throw (ErrorObj (engine_message w f)) | Inr v \<Rightarrow> Next v)"

subsection \<open>The handler, statement by statement\<close>

text \<open>
  Lines 15 to 39: the body is read, \<^verbatim>\<open>wikipediaUrl\<close> is taken out of it, and the
  value is checked. The inner \<^verbatim>\<open>try\<close> turns a throwing URL constructor into a
  response of its own.
\<close>

definition validate_url :: "platform \<Rightarrow> json \<Rightarrow> json step" where
  "validate_url w wikipediaUrl =
     (case new_URL w wikipediaUrl of
        None \<Rightarrow> Return (json_response 400 (error_body (js ''Invalid URL format'')))
      | Some parsed \<Rightarrow>
          if \<not> endsWith (hostname parsed) (js ''.wikipedia.org'')
             \<or> (protocol parsed \<noteq> js ''http:'' \<and> protocol parsed \<noteq> js ''https:'')
          then Return (json_response 400
                 (error_body (js ''Invalid Wikipedia URL. Must be from *.wikipedia.org'')))
          else Next wikipediaUrl)"

definition read_url :: "platform \<Rightarrow> request \<Rightarrow> json step" where
  "read_url w req =
     (case req_json req of
        Inl e \<Rightarrow> Throw e
      | Inr b \<Rightarrow>
          (case of_fault w (get_named (js ''wikipediaUrl'') (Some b)) of
             Throw e \<Rightarrow> Throw e
           | Return r \<Rightarrow> Return r
           | Next None \<Rightarrow>
               Return (json_response 400 (error_body (js ''Wikipedia URL is required'')))
           | Next (Some wikipediaUrl) \<Rightarrow>
               if \<not> truthy wikipediaUrl
               then Return (json_response 400 (error_body (js ''Wikipedia URL is required'')))
               else validate_url w wikipediaUrl))"

text \<open>Lines 45 to 49: the article's status is checked and its text taken.\<close>

definition article_html :: "fetched \<Rightarrow> jsstring step" where
  "article_html wikiResponse =
     (if \<not> ok wikiResponse then Throw (ErrorObj (js ''Failed to fetch Wikipedia article''))
      else Next (http_text wikiResponse))"

text \<open>Line 58: the title, with its default.\<close>

definition extract_title :: "document \<Rightarrow> jsstring" where
  "extract_title doc =
     (case firstHeading doc of
        None \<Rightarrow> js ''Unknown Article''
      | Some h \<Rightarrow>
          (case textContent h of
             None \<Rightarrow> js ''Unknown Article''
           | Some t \<Rightarrow> if trim t = [] then js ''Unknown Article'' else trim t))"

text \<open>
  Lines 67 to 69: the texts of the paragraphs, trimmed, and the filter
  \<^verbatim>\<open>text && text.length > 50\<close>.
\<close>

definition substantial :: "jsstring option \<Rightarrow> bool" where
  "substantial text = (case text of None \<Rightarrow> False | Some t \<Rightarrow> t \<noteq> [] \<and> 50 < length t)"

definition paragraphs :: "element list \<Rightarrow> jsstring option list" where
  "paragraphs ps = filter substantial (map (\<lambda>p. map_option trim (textContent p)) ps)"

text \<open>Line 71.\<close>

definition articleText :: "element list \<Rightarrow> jsstring" where
  "articleText ps = slice0 15000 (join [LF, LF] (paragraphs ps))"

text \<open>Lines 52 to 75: title and text of the page, or the error thrown.\<close>

definition extract_article :: "platform \<Rightarrow> jsstring \<Rightarrow> (jsstring \<times> jsstring) step" where
  "extract_article w html =
     (case parseFromString w html of
        None \<Rightarrow> Throw (ErrorObj (js ''Failed to parse Wikipedia HTML''))
      | Some doc \<Rightarrow>
          (case contentDiv doc of
             None \<Rightarrow> Throw (ErrorObj (js ''Could not find article content''))
           | Some ps \<Rightarrow>
               if length (articleText ps) < 500
               then Throw (ErrorObj
                      (js ''Article content is too short to generate a meaningful quiz''))
               else Next (extract_title doc, articleText ps)))"

text \<open>Lines 80 to 83.\<close>

definition api_key :: "platform \<Rightarrow> jsstring step" where
  "api_key w =
     (case env_LOVABLE_API_KEY w of
        None \<Rightarrow> Throw (ErrorObj (js ''LOVABLE_API_KEY not configured''))
      | Some k \<Rightarrow>
          if k = [] then Throw (ErrorObj (js ''LOVABLE_API_KEY not configured''))
          else Next k)"

text \<open>Lines 85 to 124: the instruction, line by line.\<close>

definition systemPrompt :: jsstring where
  \<open>systemPrompt = join [LF] (map Some
     [js ''You are an AI model trained to convert Wikipedia article text into structured educational content.'',
      [],
      js ''Your task:'',
      js ''1. Summarize the article (80'' @ [0x2013] @ js ''120 words)'',
      js ''2. Identify key people, organizations, and locations mentioned'',
      js ''3. Detect major sections or thematic divisions'',
      js ''4. Generate 5'' @ [0x2013] @ js ''10 multiple-choice quiz questions with:'',
      js ''   - question'',
      js ''   - four answer options (A-D)'',
      js ''   - correct answer (must be one of: A, B, C, or D)'',
      js ''   - difficulty level: easy/medium/hard'',
      js ''   - explanation grounded strictly in the article'',
      js ''5. Suggest 3'' @ [0x2013] @ js ''8 related Wikipedia topics based on themes in the article'',
      [],
      js ''Constraints:'',
      js ''- Use ONLY the article text; do not assume external facts.'',
      js ''- Output MUST be valid JSON following this schema:'',
      [],
      js ''{'',
      js ''  "title": "",'',
      js ''  "summary": "",'',
      js ''  "key_entities": {'',
      js ''    "people": [],'',
      js ''    "organizations": [],'',
      js ''    "locations": []'',
      js ''  },'',
      js ''  "sections": [],'',
      js ''  "quiz": ['',
      js ''    {'',
      js ''      "question": "",'',
      js ''      "options": ["", "", "", ""],'',
      js ''      "answer": "",'',
      js ''      "difficulty": "",'',
      js ''      "explanation": ""'',
      js ''    }'',
      js ''  ],'',
      js ''  "related_topics": []'',
      js ''}'',
      [],
      js ''Respond with JSON only.''])\<close>

text \<open>Line 138: the user message.\<close>

definition user_message :: "jsstring \<Rightarrow> jsstring \<Rightarrow> jsstring" where
  "user_message title text =
     js ''Article Title: '' @ title @ [LF, LF] @ js ''Article Content:'' @ [LF] @ text"

text \<open>Lines 128 to 142: the request to the completion service; 0.7 is the double 3FE6666666666666.\<close>

definition ai_request :: "jsstring \<Rightarrow> jsstring \<Rightarrow> jsstring \<Rightarrow> net_call" where
  "ai_request key title text =
     Post (js ''https://ai.gateway.lovable.dev/v1/chat/completions'')
       [(js ''Authorization'', js ''Bearer '' @ key),
        (js ''Content-Type'', js ''application/json'')]
       (JObj
         [(js ''model'', JStr (js ''google/gemini-2.5-flash'')),
          (js ''messages'',
           JArr [JObj [(js ''role'', JStr (js ''system'')), (js ''content'', JStr systemPrompt)],
                 JObj [(js ''role'', JStr (js ''user'')),
                       (js ''content'', JStr (user_message title text))]]),
          (js ''temperature'', JNum 0x3FE6666666666666)])"

text \<open>
  Lines 144 to 169: the status of the completion service's answer, then
  \<^verbatim>\<open>aiData.choices[0].message.content\<close>.
\<close>

definition generated_content :: "json \<Rightarrow> fault + json option" where
  "generated_content aiData =
     (case get_named (js ''choices'') (Some aiData) of
        Inl f \<Rightarrow> Inl f
      | Inr choices \<Rightarrow>
          (case get_index0 choices of
             Inl f \<Rightarrow> Inl f
           | Inr choice \<Rightarrow>
               (case get_named (js ''message'') choice of
                  Inl f \<Rightarrow> Inl f
                | Inr message \<Rightarrow> get_named (js ''content'') message)))"

definition completion :: "platform \<Rightarrow> fetched \<Rightarrow> json option step" where
  "completion w aiResponse =
     (if \<not> ok aiResponse then
        (if http_status aiResponse = 429
         then Return (json_response 429
                (error_body (js ''Rate limit exceeded. Please try again later.'')))
         else if http_status aiResponse = 402
         then Return (json_response 402
                (error_body
                  (js ''Payment required. Please add credits to your Lovable AI workspace.'')))
         else Throw (ErrorObj (js ''AI generation failed'')))
      else
        (case JSON_parse w (http_text aiResponse) of
           None \<Rightarrow> Throw (ErrorObj (engine_message w (JsonSyntax (http_text aiResponse))))
         | Some aiData \<Rightarrow> of_fault w (generated_content aiData)))"

text \<open>
  Lines 172 to 183: the response parser. Whatever is thrown inside its \<^verbatim>\<open>try\<close>
  (a content that is no string has no \<^verbatim>\<open>match\<close>; a text that is not JSON)
  becomes the one error.
\<close>

definition json_text :: "jsstring \<Rightarrow> jsstring" where
  "json_text generatedContent =
     (case match_fence fence_json generatedContent of
        Some inner \<Rightarrow> inner
      | None \<Rightarrow>
          (case match_fence fence_plain generatedContent of
             Some inner \<Rightarrow> inner
           | None \<Rightarrow> generatedContent))"

definition parse_response :: "platform \<Rightarrow> json option \<Rightarrow> json step" where
  "parse_response w generatedContent =
     (case generatedContent of
        Some (JStr s) \<Rightarrow>
          (case JSON_parse w (json_text s) of
             Some quizData \<Rightarrow> Next quizData
           | None \<Rightarrow> Throw (ErrorObj (js ''Invalid JSON response from AI'')))
      | _ \<Rightarrow> Throw (ErrorObj (js ''Invalid JSON response from AI'')))"

text \<open>
  Lines 186 to 193: the address is stored in the parsed value and the value is sent. On
  an object the property is written where it stands, or added behind the others. An
  array takes the property, but \<^verbatim>\<open>JSON.stringify\<close> writes the elements of an array
  only, so the value handed to \<open>json_response\<close> is the array without it.
  \<^verbatim>\<open>null\<close> and the primitives take no property: the engine throws.
\<close>

text \<open>The values a property can be written to: objects and arrays.\<close>

fun takes_property :: "json \<Rightarrow> bool" where
  "takes_property (JObj kvs) = True"
| "takes_property (JArr xs) = True"
| "takes_property v = False"

fun attach :: "platform \<Rightarrow> json \<Rightarrow> json \<Rightarrow> response step" where
  "attach w wikipediaUrl (JObj kvs) =
     Return (json_response 200 (JObj (AList.update (js ''wikipedia_url'') wikipediaUrl kvs)))"
| "attach w wikipediaUrl (JArr xs) = Return (json_response 200 (JArr xs))"
| "attach w wikipediaUrl v =
     Throw (ErrorObj (engine_message w (SetProperty v (js ''wikipedia_url''))))"

text \<open>Lines 14 to 194, the \<^verbatim>\<open>try\<close> block.\<close>

definition handler_try :: "platform \<Rightarrow> request \<Rightarrow> response io" where
  "handler_try w req =
     and_then (pure (read_url w req)) (\<lambda>wikipediaUrl.
     and_then (do_fetch w (Get wikipediaUrl)) (\<lambda>wikiResponse.
     and_then (pure (article_html wikiResponse)) (\<lambda>html.
     and_then (pure (extract_article w html)) (\<lambda>(title, text).
     and_then (pure (api_key w)) (\<lambda>key.
     and_then (do_fetch w (ai_request key title text)) (\<lambda>aiResponse.
     and_then (pure (completion w aiResponse)) (\<lambda>generatedContent.
     and_then (pure (parse_response w generatedContent)) (\<lambda>quizData.
     pure (attach w wikipediaUrl quizData)))))))))"

text \<open>
  Lines 9 to 204: the preflight answer, the \<^verbatim>\<open>try\<close> block, and the outer
  \<^verbatim>\<open>catch\<close>. The result is the response and the network calls made, in order.
\<close>

definition thrown_message :: "thrown \<Rightarrow> jsstring" where
  "thrown_message e = (case e of ErrorObj m \<Rightarrow> m | OtherValue \<Rightarrow> js ''Failed to generate quiz'')"

definition handler :: "platform \<Rightarrow> request \<Rightarrow> response \<times> net_call list" where
  "handler w req =
     (if req_method req = js ''OPTIONS''
      then (\<lparr>status = 200, headers = corsHeaders, body = None\<rparr>, [])
      else (case handler_try w req [] of
              (Return r, log) \<Rightarrow> (r, log)
            | (Next r, log) \<Rightarrow> (r, log)
            | (Throw e, log) \<Rightarrow> (json_response 500 (error_body (thrown_message e)), log)))"

subsection \<open>JSON texts\<close>

text \<open>
  \<^verbatim>\<open>JSON.parse\<close> itself is the platform's. What is used of a JSON text is its
  lexical shape alone: string literals, and between them nothing but white space, the
  six structural characters, and the characters of numbers and of \<^verbatim>\<open>true\<close>,
  \<^verbatim>\<open>false\<close>, \<^verbatim>\<open>null\<close>; inside a string literal no control character, and
  a backslash takes the next character with it. Every JSON text has this shape (and many
  other texts too: nothing is said here of how the tokens follow each other).
\<close>

datatype lex_state = Between | InString | Escaped

definition between_char :: "code_unit \<Rightarrow> bool" where
  \<open>between_char c \<longleftrightarrow>
     c \<in> {0x20, 0x09, 0x0A, 0x0D} \<or> c \<in> set (js ''{}[]:,'')
     \<or> c \<in> set (js ''0123456789+-.eE'') \<or> c \<in> set (js ''truefalsn'')\<close>

fun json_scan :: "lex_state \<Rightarrow> jsstring \<Rightarrow> bool" where
  "json_scan st [] = (st = Between)"
| "json_scan Between (c # cs) =
     (if c = 0x22 then json_scan InString cs else between_char c \<and> json_scan Between cs)"
| "json_scan InString (c # cs) =
     (if c = 0x22 then json_scan Between cs
      else if c = 0x5C then json_scan Escaped cs
      else 0x20 \<le> c \<and> json_scan InString cs)"
| "json_scan Escaped (c # cs) = (0x20 \<le> c \<and> json_scan InString cs)"

definition json_lexical :: "jsstring \<Rightarrow> bool" where
  "json_lexical t = json_scan Between t"

subsection \<open>What the specification asks of a payload\<close>

text \<open>
  The specification's words for a question: its answer is one of the four option labels.
  The code has no such check; these definitions only state the property.
\<close>

definition option_labels :: "jsstring list" where
  "option_labels = [js ''A'', js ''B'', js ''C'', js ''D'']"

fun answer_labelled :: "json \<Rightarrow> bool" where
  "answer_labelled (JObj question) =
     (case map_of question (js ''answer'') of
        Some (JStr a) \<Rightarrow> a \<in> set option_labels
      | _ \<Rightarrow> False)"
| "answer_labelled v = False"

definition quiz_elements :: "json \<Rightarrow> json list" where
  "quiz_elements payload =
     (case payload of
        JObj kvs \<Rightarrow> (case map_of kvs (js ''quiz'') of Some (JArr qs) \<Rightarrow> qs | _ \<Rightarrow> [])
      | _ \<Rightarrow> [])"

definition answers_labelled :: "json \<Rightarrow> bool" where
  "answers_labelled payload = list_all answer_labelled (quiz_elements payload)"

subsection \<open>Example runs\<close>

text \<open>
  A small outside world for the examples: two addresses the URL constructor knows, a page,
  the answer of the completion service, and \<^verbatim>\<open>JSON.parse\<close> on the few texts
  that occur (each text with the value it stands for).
\<close>

definition filler :: "nat \<Rightarrow> jsstring" where
  "filler n = replicate n 0x61"

definition par_of :: "jsstring \<Rightarrow> element" where
  "par_of t = \<lparr>textContent = Some t\<rparr>"

definition demo_url :: json where
  "demo_url = JStr (js ''https://en.wikipedia.org/wiki/Test'')"

definition foreign_url :: json where
  "foreign_url = JStr (js ''https://evil.example.org/wiki/Test'')"

definition post_to :: "json \<Rightarrow> request" where
  "post_to address = \<lparr>req_method = js ''POST'', req_json = Inr (JObj [(js ''wikipediaUrl'', address)])\<rparr>"

definition three_paragraphs :: "element list" where
  "three_paragraphs = [par_of (filler 200), par_of (filler 200), par_of (filler 200)]"

definition long_page :: document where
  "long_page = \<lparr>firstHeading = Some (par_of (js ''Test'')), contentDiv = Some three_paragraphs\<rparr>"

definition untitled_page :: document where
  "untitled_page = \<lparr>firstHeading = None, contentDiv = Some three_paragraphs\<rparr>"

definition short_page :: document where
  "short_page = \<lparr>firstHeading = Some (par_of (js ''Test'')), contentDiv = Some [par_of (filler 60)]\<rparr>"

definition huge_page :: document where
  "huge_page = \<lparr>firstHeading = Some (par_of (js ''Test'')), contentDiv = Some [par_of (filler 16000)]\<rparr>"

definition quiz_text :: jsstring where
  \<open>quiz_text = js ''{"quiz":[{"answer":"E"}]}''\<close>

definition quiz_value :: "(jsstring \<times> json) list" where
  "quiz_value = [(js ''quiz'', JArr [JObj [(js ''answer'', JStr (js ''E''))]])]"

definition fenced_quiz :: jsstring where
  "fenced_quiz = fence_json @ quiz_text @ fence_close"

definition refusal :: jsstring where
  "refusal = js ''Sorry, I cannot help with that.''"

text \<open>A string as it stands inside a JSON text, and the body of a chat completion.\<close>

definition escaped :: "jsstring \<Rightarrow> jsstring" where
  "escaped s =
     concat (map (\<lambda>c. if c = 0x22 then [0x5C, 0x22]
                       else if c = 0x5C then [0x5C, 0x5C]
                       else if c = 0x0A then [0x5C, 0x6E]
                       else [c]) s)"

definition envelope_text :: "jsstring \<Rightarrow> jsstring" where
  \<open>envelope_text content =
     js ''{"choices":[{"message":{"content":"'' @ escaped content @ js ''"}}]}''\<close>

definition envelope_value :: "jsstring \<Rightarrow> json" where
  "envelope_value content =
     JObj [(js ''choices'',
            JArr [JObj [(js ''message'', JObj [(js ''content'', JStr content)])]])]"

definition array_text :: jsstring where
  \<open>array_text = js ''[{"answer":"A"}]''\<close>

definition array_value :: "json list" where
  "array_value = [JObj [(js ''answer'', JStr (js ''A''))]]"

text \<open>The number \<^verbatim>\<open>1e999\<close> is beyond the doubles: it is parsed as infinity.\<close>

definition overflow_text :: jsstring where
  \<open>overflow_text = js ''{"score":1e999}''\<close>

definition overflow_value :: "(jsstring \<times> json) list" where
  "overflow_value = [(js ''score'', JNum 0x7FF0000000000000)]"

definition parse_table :: "(jsstring \<times> json) list" where
  "parse_table =
     [(quiz_text, JObj quiz_value),
      (envelope_text fenced_quiz, envelope_value fenced_quiz),
      (envelope_text refusal, envelope_value refusal),
      (array_text, JArr array_value),
      (envelope_text array_text, envelope_value array_text),
      (overflow_text, JObj overflow_value),
      (envelope_text overflow_text, envelope_value overflow_text)]"

definition url_table :: "(json \<times> url) list" where
  "url_table =
     [(demo_url, \<lparr>hostname = js ''en.wikipedia.org'', protocol = js ''https:''\<rparr>),
      (foreign_url, \<lparr>hostname = js ''evil.example.org'', protocol = js ''https:''\<rparr>)]"

definition page_answer :: fetched where
  "page_answer = \<lparr>http_status = 200, http_text = js ''<html>''\<rparr>"

definition demo_platform :: "document \<Rightarrow> fetched \<Rightarrow> platform" where
  "demo_platform page answer =
     \<lparr>new_URL = map_of url_table,
      fetch = (\<lambda>c. case c of Get v \<Rightarrow> Inr page_answer | Post a h b \<Rightarrow> Inr answer),
      parseFromString = (\<lambda>html. Some page),
      env_LOVABLE_API_KEY = Some (js ''secret''),
      JSON_parse = map_of parse_table,
      engine_message = (\<lambda>f. js ''TypeError'')\<rparr>"

definition completed :: "jsstring \<Rightarrow> fetched" where
  "completed content = \<lparr>http_status = 200, http_text = envelope_text content\<rparr>"

definition refused :: "nat \<Rightarrow> fetched" where
  "refused code = \<lparr>http_status = code, http_text = js ''upstream error''\<rparr>"

definition three_text :: jsstring where
  "three_text = filler 200 @ [LF, LF] @ filler 200 @ [LF, LF] @ filler 200"

section \<open>Facts about the parts\<close>

lemmas run = handler_def handler_try_def and_then_def pure_def do_fetch_def thrown_message_def

subsection \<open>The \<^verbatim>\<open>try\<close> block returns or throws\<close>

text \<open>
  Its last statement is a \<^verbatim>\<open>return\<close>: the case \<open>Next\<close> in \<open>handler\<close> never
  arises.
\<close>

lemma and_then_never_Next:
  assumes "\<And>x log'. fst (f x log') \<noteq> Next r"
  shows "fst (and_then m f log) \<noteq> Next r"
proof (cases "m log")
  case (Pair st log')
  then show ?thesis
    using assms by (cases st) (simp_all add: and_then_def)
qed

lemma attach_never_Next: "attach w u q \<noteq> Next r"
  by (cases q) simp_all

lemma handler_try_never_Next: "fst (handler_try w req log) \<noteq> Next r"
  unfolding handler_try_def split_def
  by (intro and_then_never_Next) (simp add: pure_def attach_never_Next)

subsection \<open>Objects\<close>

lemma update_other_entries:
  "filter (\<lambda>p. fst p \<noteq> k) (AList.update k v al) = filter (\<lambda>p. fst p \<noteq> k) al"
  by (induction al) auto

subsection \<open>The suffix test\<close>

lemma endsWith_suffix: "endsWith s suf \<longleftrightarrow> suffix suf s"
proof
  assume "endsWith s suf"
  then have "s = take (length s - length suf) s @ suf"
    by (metis append_take_drop_id endsWith_def)
  then show "suffix suf s" by (metis suffixI)
next
  assume "suffix suf s"
  then obtain p where "s = p @ suf" by (auto simp: suffix_def)
  then show "endsWith s suf" by (simp add: endsWith_def)
qed

subsection \<open>Joining and filtering\<close>

lemma join_Cons:
  "join sep (x # xs) = str_of x @ concat (map (\<lambda>y. sep @ str_of y) xs)"
  by (induction xs arbitrary: x) auto

lemma paragraphs_eq:
  "paragraphs ps =
     map (\<lambda>p. map_option trim (textContent p))
       (filter (\<lambda>p. case textContent p of None \<Rightarrow> False | Some t \<Rightarrow> 50 < length (trim t)) ps)"
  unfolding paragraphs_def filter_map
  by (rule arg_cong[where f="map _"], rule filter_cong)
     (auto simp: substantial_def comp_def split: option.splits)

subsection \<open>The fence match\<close>

lemma find_sub_None_iff: "find_sub pat s = None \<longleftrightarrow> \<not> sublist pat s"
  by (induction s) (auto simp: sublist_Cons_right split: option.splits)

lemma find_sub_Some: "find_sub pat s = Some (b, a) \<Longrightarrow> s = b @ pat @ a"
proof (induction s arbitrary: b)
  case Nil
  then show ?case by (simp split: if_splits)
next
  case (Cons x xs)
  show ?case
  proof (cases "prefix pat (x # xs)")
    case True
    with Cons.prems have "b = []" "a = drop (length pat) (x # xs)" by simp_all
    moreover from True obtain r where "x # xs = pat @ r" by (auto simp: prefix_def)
    ultimately show ?thesis by simp
  next
    case False
    with Cons.prems obtain b' where "find_sub pat xs = Some (b', a)" "b = x # b'"
      by (auto split: option.splits)
    with Cons.IH show ?thesis by simp
  qed
qed

lemma find_sub_at_front: "pat \<noteq> [] \<Longrightarrow> find_sub pat (pat @ rest) = Some ([], rest)"
  by (cases pat) simp_all

text \<open>The closing literal does not overlap itself: it starts with its only line feed.\<close>

lemma fence_close_no_overlap:
  assumes "prefix fence_close (x # u @ fence_close)"
  shows "prefix fence_close (x # u)"
proof -
  have q: "(0x60 :: code_unit) \<noteq> 0x0A" by simp
  show ?thesis
  proof (cases u)
    case Nil
    with assms q show ?thesis by (simp add: fence_close_def js_def LF_def)
  next
    case (Cons a u1)
    note c1 = this
    show ?thesis
    proof (cases u1)
      case Nil
      with c1 assms q show ?thesis by (simp add: fence_close_def js_def LF_def)
    next
      case (Cons b u2)
      note c2 = this
      show ?thesis
      proof (cases u2)
        case Nil
        with c1 c2 assms q show ?thesis by (simp add: fence_close_def js_def LF_def)
      next
        case (Cons c u3)
        with c1 c2 assms show ?thesis by (simp add: fence_close_def js_def LF_def)
      qed
    qed
  qed
qed

lemma find_close_at_end:
  "\<not> sublist fence_close t \<Longrightarrow> find_sub fence_close (t @ fence_close) = Some (t, [])"
proof (induction t)
  case Nil
  have "find_sub fence_close (fence_close @ []) = Some ([], [])"
    by (rule find_sub_at_front) (simp add: fence_close_def)
  then show ?case by simp
next
  case (Cons x t)
  from Cons.prems have np: "\<not> prefix fence_close (x # t)" and ns: "\<not> sublist fence_close t"
    by (simp_all add: sublist_Cons_right)
  from np have "\<not> prefix fence_close (x # t @ fence_close)"
    using fence_close_no_overlap by blast
  with Cons.IH[OF ns] show ?case by simp
qed

lemma match_fence_None:
  assumes "\<not> sublist fence_close s"
  shows "match_fence opening s = None"
proof (cases "find_sub opening s")
  case None
  then show ?thesis by (simp add: match_fence_def)
next
  case (Some p)
  obtain b rest where p: "p = (b, rest)" by (cases p)
  with Some have s: "s = b @ opening @ rest" by (simp add: find_sub_Some)
  have "\<not> sublist fence_close rest"
  proof
    assume "sublist fence_close rest"
    then obtain ps ss where "rest = ps @ fence_close @ ss"
      by (auto simp: sublist_def)
    with s have "s = (b @ opening @ ps) @ fence_close @ ss" by simp
    then have "sublist fence_close s" unfolding sublist_def by blast
    with assms show False ..
  qed
  then have "find_sub fence_close rest = None" by (simp add: find_sub_None_iff)
  with Some p show ?thesis by (simp add: match_fence_def)
qed

lemma match_fence_fenced:
  assumes "\<not> sublist fence_close t"
  shows "match_fence fence_json (fence_json @ t @ fence_close) = Some t"
proof -
  have "find_sub fence_json (fence_json @ t @ fence_close) = Some ([], t @ fence_close)"
    by (rule find_sub_at_front) (simp add: fence_json_def)
  with find_close_at_end[OF assms] show ?thesis by (simp add: match_fence_def)
qed

text \<open>
  The match found is the match of the pattern: there is one whenever the pattern matches
  anywhere, it starts leftmost, and its group is the shortest at that start.
\<close>

lemma find_sub_leftmost:
  "find_sub pat s = Some (b, a) \<Longrightarrow> s = pre @ pat @ x \<Longrightarrow> length b \<le> length pre"
proof (induction s arbitrary: b pre)
  case Nil
  then show ?case by (simp split: if_splits)
next
  case (Cons c cs)
  show ?case
  proof (cases "prefix pat (c # cs)")
    case True
    with Cons.prems(1) show ?thesis by simp
  next
    case False
    with Cons.prems(1) obtain b' where f: "find_sub pat cs = Some (b', a)" and b: "b = c # b'"
      by (auto split: option.splits)
    from False Cons.prems(2) obtain pre' where p: "pre = c # pre'"
      by (cases pre) auto
    with Cons.prems(2) have "cs = pre' @ pat @ x" by simp
    with f have "length b' \<le> length pre'" by (rule Cons.IH)
    with b p show ?thesis by simp
  qed
qed

lemma match_fence_decomposes:
  assumes "match_fence opening s = Some inner"
  shows "\<exists>pre post. s = pre @ opening @ inner @ fence_close @ post"
proof -
  from assms obtain b rest where o: "find_sub opening s = Some (b, rest)"
    by (auto simp: match_fence_def split: option.splits)
  with assms obtain after where c: "find_sub fence_close rest = Some (inner, after)"
    by (auto simp: match_fence_def split: option.splits)
  from o have "s = b @ opening @ rest" by (rule find_sub_Some)
  moreover from c have "rest = inner @ fence_close @ after" by (rule find_sub_Some)
  ultimately show ?thesis by blast
qed

lemma match_fence_finds:
  assumes "s = pre @ opening @ inner @ fence_close @ post"
  shows "match_fence opening s \<noteq> None"
proof -
  have "sublist opening s" using assms by (auto simp: sublist_def)
  then obtain b rest where o: "find_sub opening s = Some (b, rest)"
    using find_sub_None_iff by (cases "find_sub opening s") auto
  then have s: "s = b @ opening @ rest" by (rule find_sub_Some)
  from o assms have l: "length b \<le> length pre" by (rule find_sub_leftmost)
  have "drop (length pre + length opening) s = inner @ fence_close @ post"
    using assms by simp
  moreover have "drop (length pre + length opening) s = drop (length pre - length b) rest"
    using s l by (simp add: drop_append)
  ultimately have "rest = take (length pre - length b) rest @ inner @ fence_close @ post"
    by (metis append_take_drop_id)
  then have "rest = (take (length pre - length b) rest @ inner) @ fence_close @ post"
    by simp
  then have "sublist fence_close rest" unfolding sublist_def by blast
  then have "find_sub fence_close rest \<noteq> None" by (simp add: find_sub_None_iff)
  with o show ?thesis by (auto simp: match_fence_def)
qed

lemma match_fence_leftmost_lazy:
  assumes "match_fence opening s = Some inner"
  shows "\<exists>pre post. s = pre @ opening @ inner @ fence_close @ post
          \<and> (\<forall>pre' inner' post'. s = pre' @ opening @ inner' @ fence_close @ post' \<longrightarrow>
                length pre \<le> length pre'
              \<and> (length pre' = length pre \<longrightarrow> length inner \<le> length inner'))"
proof -
  from assms obtain pre rest where o: "find_sub opening s = Some (pre, rest)"
    by (auto simp: match_fence_def split: option.splits)
  with assms obtain post where c: "find_sub fence_close rest = Some (inner, post)"
    by (auto simp: match_fence_def split: option.splits)
  from o have s: "s = pre @ opening @ rest" by (rule find_sub_Some)
  from c have r: "rest = inner @ fence_close @ post" by (rule find_sub_Some)
  have "length pre \<le> length pre'
      \<and> (length pre' = length pre \<longrightarrow> length inner \<le> length inner')"
    if m: "s = pre' @ opening @ inner' @ fence_close @ post'" for pre' inner' post'
  proof
    from o m show "length pre \<le> length pre'" by (rule find_sub_leftmost)
    show "length pre' = length pre \<longrightarrow> length inner \<le> length inner'"
    proof
      assume "length pre' = length pre"
      with s m have "rest = inner' @ fence_close @ post'" by simp
      with c show "length inner \<le> length inner'" by (rule find_sub_leftmost)
    qed
  qed
  with s r show ?thesis by blast
qed

subsection \<open>No fence inside a JSON text\<close>

lemma not_between_backtick: "\<not> between_char 0x60"
  by (simp add: between_char_def js_def)

lemma json_scan_no_LF_backtick:
  assumes "json_scan st s"
  shows "\<not> prefix [LF, 0x60] s"
proof (cases s)
  case Nil
  then show ?thesis by simp
next
  case (Cons c cs)
  note s = this
  show ?thesis
  proof
    assume "prefix [LF, 0x60] s"
    with s obtain r where c: "c = LF" and cs: "cs = 0x60 # r"
      by (cases cs) auto
    from assms s c cs show False
      by (cases st) (simp_all add: LF_def not_between_backtick split: if_splits)
  qed
qed

lemma json_scan_tail: "json_scan st (c # cs) \<Longrightarrow> \<exists>st'. json_scan st' cs"
  by (cases st) (auto split: if_splits)

lemma json_scan_no_pair: "json_scan st s \<Longrightarrow> \<not> sublist [LF, 0x60] s"
proof (induction s arbitrary: st)
  case Nil
  then show ?case by simp
next
  case (Cons c cs)
  from Cons.prems have "\<not> prefix [LF, 0x60] (c # cs)"
    by (rule json_scan_no_LF_backtick)
  moreover from Cons.prems obtain st' where "json_scan st' cs"
    using json_scan_tail by blast
  then have "\<not> sublist [LF, 0x60] cs" by (rule Cons.IH)
  ultimately show ?case by (simp add: sublist_Cons_right)
qed

lemma json_lexical_no_close:
  assumes "json_lexical t"
  shows "\<not> sublist fence_close t"
proof
  assume "sublist fence_close t"
  then obtain ps ss where "t = ps @ fence_close @ ss" by (auto simp: sublist_def)
  then have "t = ps @ [LF, 0x60] @ (js ''``'' @ ss)"
    by (simp add: fence_close_def js_def)
  then have "sublist [LF, 0x60] t" unfolding sublist_def by blast
  with assms show False
    using json_scan_no_pair by (simp add: json_lexical_def)
qed

subsection \<open>The run that succeeds\<close>

lemma success_run:
  assumes "req_method req \<noteq> js ''OPTIONS''"
      and "read_url w req = Next wikipediaUrl"
      and "fetch w (Get wikipediaUrl) = Inr wikiResponse"
      and "article_html wikiResponse = Next html"
      and "extract_article w html = Next (title, text)"
      and "api_key w = Next key"
      and "fetch w (ai_request key title text) = Inr aiResponse"
      and "completion w aiResponse = Next generatedContent"
      and "parse_response w generatedContent = Next (JObj quizData)"
  shows "handler w req =
          (json_response 200 (JObj (AList.update (js ''wikipedia_url'') wikipediaUrl quizData)),
           [Get wikipediaUrl, ai_request key title text])"
  using assms by (simp add: run)

lemma array_run:
  assumes "req_method req \<noteq> js ''OPTIONS''"
      and "read_url w req = Next wikipediaUrl"
      and "fetch w (Get wikipediaUrl) = Inr wikiResponse"
      and "article_html wikiResponse = Next html"
      and "extract_article w html = Next (title, text)"
      and "api_key w = Next key"
      and "fetch w (ai_request key title text) = Inr aiResponse"
      and "completion w aiResponse = Next generatedContent"
      and "parse_response w generatedContent = Next (JArr quizData)"
  shows "handler w req =
          (json_response 200 (JArr quizData), [Get wikipediaUrl, ai_request key title text])"
  using assms by (simp add: run)

lemma refused_run:
  assumes "req_method req \<noteq> js ''OPTIONS''"
      and "read_url w req = Next wikipediaUrl"
      and "fetch w (Get wikipediaUrl) = Inr wikiResponse"
      and "article_html wikiResponse = Next html"
      and "extract_article w html = Next (title, text)"
      and "api_key w = Next key"
      and "fetch w (ai_request key title text) = Inr aiResponse"
      and "completion w aiResponse = Next generatedContent"
      and "parse_response w generatedContent = Next quizData"
      and "\<not> takes_property quizData"
  shows "handler w req =
          (json_response 500
             (error_body (engine_message w (SetProperty quizData (js ''wikipedia_url'')))),
           [Get wikipediaUrl, ai_request key title text])"
  using assms by (cases quizData) (simp_all add: run)

subsection \<open>What is written of a value\<close>

lemma as_sent_error_body: "as_sent (error_body m) = error_body m"
  by (simp add: error_body_def)

lemma map_of_as_sent:
  "map_of (map (\<lambda>(k, v). (k, as_sent v)) kvs) k = map_option as_sent (map_of kvs k)"
  by (induction kvs) auto

lemma as_sent_JStr_iff: "as_sent v = JStr a \<longleftrightarrow> v = JStr a"
  by (cases v) auto

lemma as_sent_JArr_iff: "as_sent v = JArr ys \<longleftrightarrow> (\<exists>xs. v = JArr xs \<and> ys = map as_sent xs)"
  by (cases v) auto

lemma answer_labelled_as_sent: "answer_labelled (as_sent q) = answer_labelled q"
proof (cases q)
  case (JObj question)
  show ?thesis
  proof (cases "map_of question (js ''answer'')")
    case None
    with JObj show ?thesis by (simp add: map_of_as_sent)
  next
    case (Some v)
    with JObj show ?thesis
      by (cases v) (simp_all add: map_of_as_sent)
  qed
qed simp_all

lemma quiz_elements_as_sent: "quiz_elements (as_sent p) = map as_sent (quiz_elements p)"
proof (cases p)
  case (JObj kvs)
  show ?thesis
  proof (cases "map_of kvs (js ''quiz'')")
    case None
    with JObj show ?thesis by (simp add: quiz_elements_def map_of_as_sent)
  next
    case (Some v)
    with JObj show ?thesis
      by (cases v) (simp_all add: quiz_elements_def map_of_as_sent)
  qed
qed (simp_all add: quiz_elements_def)

lemma answers_labelled_as_sent: "answers_labelled (as_sent p) = answers_labelled p"
  by (simp add: answers_labelled_def quiz_elements_as_sent list_all_iff
        answer_labelled_as_sent)

lemma as_sent_other_entries:
  "filter (\<lambda>p. fst p \<noteq> k) (map (\<lambda>(k, v). (k, as_sent v)) kvs) =
     map (\<lambda>(k, v). (k, as_sent v)) (filter (\<lambda>p. fst p \<noteq> k) kvs)"
  by (induction kvs) auto

lemma quiz_elements_update:
  "quiz_elements (JObj (AList.update (js ''wikipedia_url'') v kvs)) = quiz_elements (JObj kvs)"
proof -
  have "js ''quiz'' \<noteq> js ''wikipedia_url''" by (simp add: js_def)
  then show ?thesis by (simp add: quiz_elements_def update_conv')
qed

subsection \<open>The example runs\<close>

lemma trim_filler: "trim (filler n) = filler n"
  by (simp add: trim_def filler_def is_space_def)

lemma trim_Test: "trim (js ''Test'') = js ''Test''"
  by (simp add: trim_def js_def is_space_def)

lemma title_Test:
  "firstHeading doc = Some (par_of (js ''Test'')) \<Longrightarrow> extract_title doc = js ''Test''"
  by (simp add: extract_title_def par_of_def trim_Test) (simp add: js_def)

lemma paragraphs_three:
  "paragraphs three_paragraphs = [Some (filler 200), Some (filler 200), Some (filler 200)]"
  by (simp add: paragraphs_def three_paragraphs_def par_of_def trim_filler substantial_def)
     (simp add: filler_def)

lemma articleText_three: "articleText three_paragraphs = three_text"
  by (simp add: articleText_def paragraphs_three slice0_def str_of_def three_text_def)
     (simp add: filler_def)

lemma length_three_text: "length three_text = 604"
  by (simp add: three_text_def filler_def)

lemma as_sent_demo_url: "as_sent demo_url = demo_url"
  by (simp add: demo_url_def)

lemma demo_method: "req_method (post_to v) \<noteq> js ''OPTIONS''"
  by (simp add: post_to_def js_def)

lemma demo_read_url: "read_url (demo_platform page answer) (post_to demo_url) = Next demo_url"
  by (simp add: read_url_def post_to_def of_fault_def demo_url_def validate_url_def
        demo_platform_def url_table_def endsWith_def js_def)

lemma demo_fetch_get: "fetch (demo_platform page answer) (Get v) = Inr page_answer"
  by (simp add: demo_platform_def)

lemma demo_fetch_post: "fetch (demo_platform page answer) (ai_request k t x) = Inr answer"
  by (simp add: demo_platform_def ai_request_def)

lemma demo_article_html: "article_html page_answer = Next (js ''<html>'')"
  by (simp add: article_html_def page_answer_def ok_def)

lemma demo_parse_html: "parseFromString (demo_platform page answer) html = Some page"
  by (simp add: demo_platform_def)

lemma demo_api_key: "api_key (demo_platform page answer) = Next (js ''secret'')"
  by (simp add: api_key_def demo_platform_def js_def)

lemma demo_extract_long:
  "extract_article (demo_platform long_page answer) html = Next (js ''Test'', three_text)"
proof -
  have "contentDiv long_page = Some three_paragraphs"
    and "firstHeading long_page = Some (par_of (js ''Test''))"
    by (simp_all add: long_page_def)
  then show ?thesis
    by (simp add: extract_article_def demo_platform_def title_Test articleText_three
          length_three_text)
qed

lemmas texts = parse_table_def envelope_text_def quiz_text_def fenced_quiz_def refusal_def
  array_text_def overflow_text_def fence_json_def fence_close_def LF_def escaped_def js_def

lemma parse_quiz_text: "map_of parse_table quiz_text = Some (JObj quiz_value)"
  by (simp add: parse_table_def)

lemma parse_envelope_fenced:
  "map_of parse_table (envelope_text fenced_quiz) = Some (envelope_value fenced_quiz)"
  by (simp add: parse_table_def envelope_text_def quiz_text_def js_def)

lemma parse_envelope_refusal:
  "map_of parse_table (envelope_text refusal) = Some (envelope_value refusal)"
  by (simp add: texts)

lemma parse_refusal: "map_of parse_table refusal = None"
  by (simp add: texts)

lemma parse_array_text: "map_of parse_table array_text = Some (JArr array_value)"
  by (simp add: texts)

lemma parse_envelope_array:
  "map_of parse_table (envelope_text array_text) = Some (envelope_value array_text)"
  by (simp add: texts)

lemma parse_overflow_text: "map_of parse_table overflow_text = Some (JObj overflow_value)"
  by (simp add: texts)

lemma parse_envelope_overflow:
  "map_of parse_table (envelope_text overflow_text) = Some (envelope_value overflow_text)"
  by (simp add: texts)

lemma generated_envelope: "generated_content (envelope_value c) = Inr (Some (JStr c))"
  by (simp add: generated_content_def envelope_value_def)

lemma demo_completion:
  assumes "map_of parse_table (envelope_text c) = Some (envelope_value c)"
  shows "completion (demo_platform page (completed c)) (completed c) = Next (Some (JStr c))"
  using assms
  by (simp add: completion_def completed_def ok_def demo_platform_def generated_envelope
        of_fault_def)

lemma json_text_refusal: "json_text refusal = refusal"
  by (simp add: json_text_def match_fence_def refusal_def fence_json_def fence_plain_def
        js_def LF_def)

lemma quiz_text_lexical: "json_lexical quiz_text"
  by (simp add: json_lexical_def quiz_text_def between_char_def js_def)

lemma quiz_text_no_close: "\<not> sublist fence_close quiz_text"
  using quiz_text_lexical by (rule json_lexical_no_close)

lemma demo_parse_plain:
  assumes "json_lexical t"
      and "map_of parse_table t = Some v"
  shows "parse_response (demo_platform page answer) (Some (JStr t)) = Next v"
proof -
  from assms(1) have "\<not> sublist fence_close t" by (rule json_lexical_no_close)
  then have "json_text t = t" by (simp add: json_text_def match_fence_None)
  with assms(2) show ?thesis by (simp add: parse_response_def demo_platform_def)
qed

lemma array_text_lexical: "json_lexical array_text"
  by (simp add: json_lexical_def array_text_def between_char_def js_def)

lemma overflow_text_lexical: "json_lexical overflow_text"
  by (simp add: json_lexical_def overflow_text_def between_char_def js_def)

lemma demo_parse_fenced:
  "parse_response (demo_platform page answer) (Some (JStr fenced_quiz)) = Next (JObj quiz_value)"
  by (simp add: parse_response_def json_text_def fenced_quiz_def match_fence_fenced
        quiz_text_no_close demo_platform_def parse_quiz_text)

section \<open>The claims\<close>

text \<open>
  C1. For every input URL whose hostname does not end in \<^verbatim>\<open>.wikipedia.org\<close> or
  whose scheme is neither http nor https, the handler answers with status 400 and a body
  of the single field \<^verbatim>\<open>error\<close>, and makes no network call: neither the GET of
  the article nor the POST to the completion service. (The request is not the preflight
  \<^verbatim>\<open>OPTIONS\<close>, which is answered before the body is read.)
\<close>

theorem foreign_url_rejected:
  assumes "req_method req \<noteq> js ''OPTIONS''"
      and "req_json req = Inr b"
      and "get_named (js ''wikipediaUrl'') (Some b) = Inr (Some wikipediaUrl)"
      and "new_URL w wikipediaUrl = Some parsed"
      and "\<not> endsWith (hostname parsed) (js ''.wikipedia.org'')
           \<or> (protocol parsed \<noteq> js ''http:'' \<and> protocol parsed \<noteq> js ''https:'')"
  shows "status (fst (handler w req)) = 400
       \<and> body (fst (handler w req)) =
           Some (JObj [(js ''error'',
             JStr (if truthy wikipediaUrl
                   then js ''Invalid Wikipedia URL. Must be from *.wikipedia.org''
                   else js ''Wikipedia URL is required''))])
       \<and> snd (handler w req) = []"
  using assms
  by (auto simp add: run read_url_def validate_url_def of_fault_def json_response_def
        error_body_def)

theorem foreign_url_rejected_witness:
  "status (fst (handler (demo_platform long_page (completed fenced_quiz)) (post_to foreign_url)))
     = 400
   \<and> body (fst (handler (demo_platform long_page (completed fenced_quiz)) (post_to foreign_url)))
     = Some (JObj [(js ''error'',
               JStr (js ''Invalid Wikipedia URL. Must be from *.wikipedia.org''))])
   \<and> snd (handler (demo_platform long_page (completed fenced_quiz)) (post_to foreign_url)) = []"
proof -
  let ?w = "demo_platform long_page (completed fenced_quiz)"
  let ?parsed = "\<lparr>hostname = js ''evil.example.org'', protocol = js ''https:''\<rparr>"
  have b: "req_json (post_to foreign_url) = Inr (JObj [(js ''wikipediaUrl'', foreign_url)])"
    by (simp add: post_to_def)
  have g: "get_named (js ''wikipediaUrl'') (Some (JObj [(js ''wikipediaUrl'', foreign_url)]))
             = Inr (Some foreign_url)"
    by simp
  have u: "new_URL ?w foreign_url = Some ?parsed"
    by (simp add: demo_platform_def url_table_def foreign_url_def demo_url_def js_def)
  have h: "\<not> endsWith (hostname ?parsed) (js ''.wikipedia.org'')
           \<or> (protocol ?parsed \<noteq> js ''http:'' \<and> protocol ?parsed \<noteq> js ''https:'')"
    by (simp add: endsWith_def js_def)
  have t: "truthy foreign_url"
    by (simp add: foreign_url_def js_def)
  show ?thesis
    using foreign_url_rejected [OF demo_method b g u h] t by simp
qed

text \<open>
  C2, as amended. The pipeline does not check the answers. Whenever it answers with
  status 200, the quiz array in the body sent is the quiz array of the parsed completion
  as \<^verbatim>\<open>JSON.stringify\<close> writes it, element for element: each answer is one of the
  labels A, B, C, D exactly when that was so in what the completion service wrote. (The
  status is 200 exactly when the parsed completion is an object or an array.)
\<close>

theorem answers_as_completed:
  assumes "req_method req \<noteq> js ''OPTIONS''"
      and "read_url w req = Next wikipediaUrl"
      and "fetch w (Get wikipediaUrl) = Inr wikiResponse"
      and "article_html wikiResponse = Next html"
      and "extract_article w html = Next (title, text)"
      and "api_key w = Next key"
      and "fetch w (ai_request key title text) = Inr aiResponse"
      and "completion w aiResponse = Next generatedContent"
      and "parse_response w generatedContent = Next quizData"
  shows "status (fst (handler w req)) = (if takes_property quizData then 200 else 500)
       \<and> (takes_property quizData \<longrightarrow>
            (\<exists>sent. body (fst (handler w req)) = Some sent
               \<and> quiz_elements sent = map as_sent (quiz_elements quizData)
               \<and> (answers_labelled sent \<longleftrightarrow> answers_labelled quizData)))"
proof (cases quizData)
  case (JObj kvs)
  let ?set = "JObj (AList.update (js ''wikipedia_url'') wikipediaUrl kvs)"
  have h: "handler w req =
            (json_response 200 ?set, [Get wikipediaUrl, ai_request key title text])"
    using assms(1-8) assms(9) [unfolded JObj] by (rule success_run)
  have "status (fst (handler w req)) = 200"
    and "body (fst (handler w req)) = Some (as_sent ?set)"
    by (simp_all add: h json_response_def)
  moreover have "quiz_elements (as_sent ?set) = map as_sent (quiz_elements quizData)"
    by (simp only: quiz_elements_as_sent quiz_elements_update JObj)
  moreover have "answers_labelled (as_sent ?set) \<longleftrightarrow> answers_labelled quizData"
  proof -
    have "answers_labelled ?set \<longleftrightarrow> answers_labelled quizData"
      by (simp add: answers_labelled_def quiz_elements_update JObj)
    then show ?thesis by (simp only: answers_labelled_as_sent)
  qed
  ultimately show ?thesis
    using JObj by simp
next
  case (JArr xs)
  have h: "handler w req =
            (json_response 200 (JArr xs), [Get wikipediaUrl, ai_request key title text])"
    using assms(1-8) assms(9) [unfolded JArr] by (rule array_run)
  have "status (fst (handler w req)) = 200"
    and "body (fst (handler w req)) = Some (as_sent (JArr xs))"
    by (simp_all add: h json_response_def)
  moreover have "quiz_elements (as_sent (JArr xs)) = map as_sent (quiz_elements quizData)"
    by (simp only: quiz_elements_as_sent JArr)
  moreover have "answers_labelled (as_sent (JArr xs)) \<longleftrightarrow> answers_labelled quizData"
    by (simp only: answers_labelled_as_sent JArr)
  ultimately show ?thesis
    using JArr by simp
next
  case JNull
  then have "\<not> takes_property quizData" by simp
  with assms have "handler w req =
          (json_response 500
             (error_body (engine_message w (SetProperty quizData (js ''wikipedia_url'')))),
           [Get wikipediaUrl, ai_request key title text])"
    by (rule refused_run)
  with JNull show ?thesis by (simp add: json_response_def)
next
  case (JBool b)
  then have "\<not> takes_property quizData" by simp
  with assms have "handler w req =
          (json_response 500
             (error_body (engine_message w (SetProperty quizData (js ''wikipedia_url'')))),
           [Get wikipediaUrl, ai_request key title text])"
    by (rule refused_run)
  with JBool show ?thesis by (simp add: json_response_def)
next
  case (JNum d)
  then have "\<not> takes_property quizData" by simp
  with assms have "handler w req =
          (json_response 500
             (error_body (engine_message w (SetProperty quizData (js ''wikipedia_url'')))),
           [Get wikipediaUrl, ai_request key title text])"
    by (rule refused_run)
  with JNum show ?thesis by (simp add: json_response_def)
next
  case (JStr t)
  then have "\<not> takes_property quizData" by simp
  with assms have "handler w req =
          (json_response 500
             (error_body (engine_message w (SetProperty quizData (js ''wikipedia_url'')))),
           [Get wikipediaUrl, ai_request key title text])"
    by (rule refused_run)
  with JStr show ?thesis by (simp add: json_response_def)
qed

theorem answers_as_completed_witness:
  "status (fst (handler (demo_platform long_page (completed fenced_quiz)) (post_to demo_url)))
     = 200
   \<and> (\<exists>sent. body (fst (handler (demo_platform long_page (completed fenced_quiz))
                          (post_to demo_url))) = Some sent
         \<and> quiz_elements sent = map as_sent (quiz_elements (JObj quiz_value))
         \<and> (answers_labelled sent \<longleftrightarrow> answers_labelled (JObj quiz_value)))"
  using answers_as_completed [OF demo_method demo_read_url demo_fetch_get demo_article_html
        demo_extract_long demo_api_key demo_fetch_post
        demo_completion [OF parse_envelope_fenced] demo_parse_fenced]
  by simp

text \<open>
  C2, as stated, fails: the completion service answers with a quiz whose one answer is
  \<^verbatim>\<open>E\<close>, and the handler sends it with status 200.
\<close>

theorem answer_outside_labels:
  "status (fst (handler (demo_platform long_page (completed fenced_quiz)) (post_to demo_url)))
     = 200
   \<and> body (fst (handler (demo_platform long_page (completed fenced_quiz)) (post_to demo_url)))
     = Some (JObj [(js ''quiz'', JArr [JObj [(js ''answer'', JStr (js ''E''))]]),
                   (js ''wikipedia_url'', demo_url)])
   \<and> \<not> answers_labelled
          (JObj [(js ''quiz'', JArr [JObj [(js ''answer'', JStr (js ''E''))]]),
                 (js ''wikipedia_url'', demo_url)])"
proof -
  have r: "handler (demo_platform long_page (completed fenced_quiz)) (post_to demo_url) =
          (json_response 200 (JObj (AList.update (js ''wikipedia_url'') demo_url quiz_value)),
           [Get demo_url, ai_request (js ''secret'') (js ''Test'') three_text])"
    by (rule success_run [OF demo_method demo_read_url demo_fetch_get demo_article_html
        demo_extract_long demo_api_key demo_fetch_post
        demo_completion [OF parse_envelope_fenced] demo_parse_fenced])
  have k: "js ''quiz'' \<noteq> js ''wikipedia_url''" by (simp add: js_def)
  have u: "AList.update (js ''wikipedia_url'') demo_url quiz_value =
           [(js ''quiz'', JArr [JObj [(js ''answer'', JStr (js ''E''))]]),
            (js ''wikipedia_url'', demo_url)]"
    using k by (simp add: quiz_value_def)
  have n: "\<not> answers_labelled
          (JObj [(js ''quiz'', JArr [JObj [(js ''answer'', JStr (js ''E''))]]),
                 (js ''wikipedia_url'', demo_url)])"
    by (simp add: answers_labelled_def quiz_elements_def option_labels_def) (simp add: js_def)
  show ?thesis
    using n by (simp add: r u json_response_def as_sent_demo_url)
qed



text \<open>
  C4. When the completion service answers without success: status 429 gives the
  response 429 with the error \<^verbatim>\<open>Rate limit exceeded. Please try again later.\<close>,
  status 402 gives the response 402, every other status gives the response 500. The body
  is the one field \<^verbatim>\<open>error\<close> in each case, never a quiz.
\<close>

theorem completion_failure_status:
  assumes "req_method req \<noteq> js ''OPTIONS''"
      and "read_url w req = Next wikipediaUrl"
      and "fetch w (Get wikipediaUrl) = Inr wikiResponse"
      and "article_html wikiResponse = Next html"
      and "extract_article w html = Next (title, text)"
      and "api_key w = Next key"
      and "fetch w (ai_request key title text) = Inr aiResponse"
      and "\<not> ok aiResponse"
  shows "handler w req =
          (if http_status aiResponse = 429
           then json_response 429
                  (error_body (js ''Rate limit exceeded. Please try again later.''))
           else if http_status aiResponse = 402
           then json_response 402 (error_body
                  (js ''Payment required. Please add credits to your Lovable AI workspace.''))
           else json_response 500 (error_body (js ''AI generation failed'')),
           [Get wikipediaUrl, ai_request key title text])
       \<and> status (fst (handler w req)) =
           (if http_status aiResponse = 429 then 429
            else if http_status aiResponse = 402 then 402
            else 500)
       \<and> body (fst (handler w req)) =
           Some (JObj [(js ''error'',
             JStr (if http_status aiResponse = 429
                   then js ''Rate limit exceeded. Please try again later.''
                   else if http_status aiResponse = 402
                   then js ''Payment required. Please add credits to your Lovable AI workspace.''
                   else js ''AI generation failed''))])"
  using assms
  by (simp add: run completion_def json_response_def error_body_def)

theorem completion_failure_status_witness:
  "status (fst (handler (demo_platform long_page (refused 429)) (post_to demo_url))) = 429
   \<and> body (fst (handler (demo_platform long_page (refused 429)) (post_to demo_url))) =
       Some (JObj [(js ''error'', JStr (js ''Rate limit exceeded. Please try again later.''))])
   \<and> snd (handler (demo_platform long_page (refused 429)) (post_to demo_url)) =
       [Get demo_url, ai_request (js ''secret'') (js ''Test'') three_text]
   \<and> status (fst (handler (demo_platform long_page (refused 402)) (post_to demo_url))) = 402
   \<and> body (fst (handler (demo_platform long_page (refused 402)) (post_to demo_url))) =
       Some (JObj [(js ''error'',
         JStr (js ''Payment required. Please add credits to your Lovable AI workspace.''))])
   \<and> status (fst (handler (demo_platform long_page (refused 503)) (post_to demo_url))) = 500
   \<and> body (fst (handler (demo_platform long_page (refused 503)) (post_to demo_url))) =
       Some (JObj [(js ''error'', JStr (js ''AI generation failed''))])"
proof -
  have n: "\<not> ok (refused 429)" "\<not> ok (refused 402)" "\<not> ok (refused 503)"
    by (simp_all add: ok_def refused_def)
  have s: "http_status (refused 429) = 429" "http_status (refused 402) = 402"
    "http_status (refused 503) = 503"
    by (simp_all add: refused_def)
  show ?thesis
    using completion_failure_status [OF demo_method demo_read_url demo_fetch_get demo_article_html
        demo_extract_long demo_api_key demo_fetch_post n(1)]
          completion_failure_status [OF demo_method demo_read_url demo_fetch_get demo_article_html
        demo_extract_long demo_api_key demo_fetch_post n(2)]
          completion_failure_status [OF demo_method demo_read_url demo_fetch_get demo_article_html
        demo_extract_long demo_api_key demo_fetch_post n(3)]
    by (simp add: s json_response_def error_body_def)
qed

text \<open>
  C5. When no JSON can be taken from the completion text (the text the parser tries,
  which is the inside of the fenced block if there is one and the whole text otherwise,
  does not parse), the handler answers with status 500 and the body
  \<^verbatim>\<open>{error: "Invalid JSON response from AI"}\<close>.
\<close>

theorem unparsable_completion:
  assumes "req_method req \<noteq> js ''OPTIONS''"
      and "read_url w req = Next wikipediaUrl"
      and "fetch w (Get wikipediaUrl) = Inr wikiResponse"
      and "article_html wikiResponse = Next html"
      and "extract_article w html = Next (title, text)"
      and "api_key w = Next key"
      and "fetch w (ai_request key title text) = Inr aiResponse"
      and "completion w aiResponse = Next (Some (JStr generatedContent))"
      and "JSON_parse w (json_text generatedContent) = None"
  shows "handler w req =
          (json_response 500 (error_body (js ''Invalid JSON response from AI'')),
           [Get wikipediaUrl, ai_request key title text])
       \<and> json_response 500 (error_body (js ''Invalid JSON response from AI'')) =
           \<lparr>status = 500,
            headers = corsHeaders @ [(js ''Content-Type'', js ''application/json'')],
            body = Some (JObj [(js ''error'', JStr (js ''Invalid JSON response from AI''))])\<rparr>"
  using assms
  by (simp add: run parse_response_def json_response_def error_body_def)

theorem unparsable_completion_witness:
  "handler (demo_platform long_page (completed refusal)) (post_to demo_url) =
     (json_response 500 (error_body (js ''Invalid JSON response from AI'')),
      [Get demo_url, ai_request (js ''secret'') (js ''Test'') three_text])"
proof -
  have "JSON_parse (demo_platform long_page (completed refusal)) (json_text refusal) = None"
    by (simp add: json_text_refusal demo_platform_def parse_refusal)
  from unparsable_completion [OF demo_method demo_read_url demo_fetch_get demo_article_html
        demo_extract_long demo_api_key demo_fetch_post
        demo_completion [OF parse_envelope_refusal] this]
  show ?thesis by simp
qed

text \<open>
  C6. Of the paragraphs found, exactly those whose trimmed text is longer than 50 code
  units are kept, in their order, as their trimmed texts; the kept texts are joined with
  a blank line between them. For paragraphs of trimmed lengths 10, 60, 40 and 200 the
  second and the fourth are kept, and the article text is the one, a blank line, the
  other.
\<close>

theorem substantial_paragraphs_joined:
  "paragraphs ps =
     map (\<lambda>p. map_option trim (textContent p))
       (filter (\<lambda>p. case textContent p of None \<Rightarrow> False | Some t \<Rightarrow> 50 < length (trim t)) ps)
   \<and> join [LF, LF] (paragraphs ps) =
       (case paragraphs ps of
          [] \<Rightarrow> []
        | x # xs \<Rightarrow> str_of x @ concat (map (\<lambda>y. [LF, LF] @ str_of y) xs))
   \<and> (textContent p1 = Some t1 \<and> length (trim t1) = 10 \<and>
      textContent p2 = Some t2 \<and> length (trim t2) = 60 \<and>
      textContent p3 = Some t3 \<and> length (trim t3) = 40 \<and>
      textContent p4 = Some t4 \<and> length (trim t4) = 200 \<longrightarrow>
        paragraphs [p1, p2, p3, p4] = [Some (trim t2), Some (trim t4)]
      \<and> articleText [p1, p2, p3, p4] = trim t2 @ [LF, LF] @ trim t4)"
proof (intro conjI impI)
  show "paragraphs ps =
     map (\<lambda>p. map_option trim (textContent p))
       (filter (\<lambda>p. case textContent p of None \<Rightarrow> False | Some t \<Rightarrow> 50 < length (trim t)) ps)"
    by (rule paragraphs_eq)
  show "join [LF, LF] (paragraphs ps) =
       (case paragraphs ps of
          [] \<Rightarrow> []
        | x # xs \<Rightarrow> str_of x @ concat (map (\<lambda>y. [LF, LF] @ str_of y) xs))"
    by (cases "paragraphs ps") (simp_all add: join_Cons)
next
  assume h: "textContent p1 = Some t1 \<and> length (trim t1) = 10 \<and>
      textContent p2 = Some t2 \<and> length (trim t2) = 60 \<and>
      textContent p3 = Some t3 \<and> length (trim t3) = 40 \<and>
      textContent p4 = Some t4 \<and> length (trim t4) = 200"
  then show p: "paragraphs [p1, p2, p3, p4] = [Some (trim t2), Some (trim t4)]"
    by (simp add: paragraphs_eq)
  from h show "articleText [p1, p2, p3, p4] = trim t2 @ [LF, LF] @ trim t4"
    by (simp add: articleText_def p slice0_def str_of_def)
qed

theorem substantial_paragraphs_joined_witness:
  "paragraphs [par_of (filler 10), par_of (filler 60), par_of (filler 40), par_of (filler 200)]
     = [Some (filler 60), Some (filler 200)]
   \<and> articleText [par_of (filler 10), par_of (filler 60), par_of (filler 40), par_of (filler 200)]
     = filler 60 @ [LF, LF] @ filler 200"
proof -
  have "textContent (par_of (filler 10)) = Some (filler 10) \<and> length (trim (filler 10)) = 10 \<and>
      textContent (par_of (filler 60)) = Some (filler 60) \<and> length (trim (filler 60)) = 60 \<and>
      textContent (par_of (filler 40)) = Some (filler 40) \<and> length (trim (filler 40)) = 40 \<and>
      textContent (par_of (filler 200)) = Some (filler 200) \<and> length (trim (filler 200)) = 200"
    by (simp add: par_of_def trim_filler) (simp add: filler_def)
  with substantial_paragraphs_joined
         [where ?p1.0 = "par_of (filler 10)" and ?t1.0 = "filler 10"
            and ?p2.0 = "par_of (filler 60)" and ?t2.0 = "filler 60"
            and ?p3.0 = "par_of (filler 40)" and ?t3.0 = "filler 40"
            and ?p4.0 = "par_of (filler 200)" and ?t4.0 = "filler 200"]
  show ?thesis by (simp add: trim_filler)
qed

text \<open>
  C7. The text handed on to the prompt is the joined paragraphs cut to 15,000 code
  units: when the joined paragraphs are longer than 15,000 it is exactly their first
  15,000, otherwise it is the joined paragraphs unchanged. It stands in the user message
  of the request to the completion service. (Joined paragraphs shorter than 500 are not
  handed on at all, see C8.)
\<close>

theorem article_text_truncated:
  assumes "req_method req \<noteq> js ''OPTIONS''"
      and "read_url w req = Next wikipediaUrl"
      and "fetch w (Get wikipediaUrl) = Inr wikiResponse"
      and "article_html wikiResponse = Next html"
      and "parseFromString w html = Some doc"
      and "contentDiv doc = Some ps"
      and "api_key w = Next key"
      and "500 \<le> length (join [LF, LF] (paragraphs ps))"
  shows "snd (handler w req) =
           [Get wikipediaUrl,
            ai_request key (extract_title doc)
              (if 15000 < length (join [LF, LF] (paragraphs ps))
               then take 15000 (join [LF, LF] (paragraphs ps))
               else join [LF, LF] (paragraphs ps))]
       \<and> (15000 < length (join [LF, LF] (paragraphs ps)) \<longrightarrow>
            length (take 15000 (join [LF, LF] (paragraphs ps))) = 15000)"
proof -
  let ?b = "join [LF, LF] (paragraphs ps)"
  have a: "articleText ps = (if 15000 < length ?b then take 15000 ?b else ?b)"
    by (simp add: articleText_def slice0_def)
  have l: "500 \<le> length (articleText ps)"
    using assms(8) by (simp add: articleText_def slice0_def)
  have e: "extract_article w html = Next (extract_title doc, articleText ps)"
    using assms(5,6) l by (simp add: extract_article_def)
  have "snd (handler w req) =
           [Get wikipediaUrl, ai_request key (extract_title doc) (articleText ps)]"
    using assms(1-4,7) e
    by (auto simp add: run split: sum.splits step.splits prod.splits)
  then show ?thesis
    unfolding a by simp
qed

theorem article_text_truncated_witness:
  "snd (handler (demo_platform huge_page (completed fenced_quiz)) (post_to demo_url)) =
     [Get demo_url, ai_request (js ''secret'') (js ''Test'') (filler 15000)]
   \<and> snd (handler (demo_platform long_page (completed fenced_quiz)) (post_to demo_url)) =
     [Get demo_url, ai_request (js ''secret'') (js ''Test'') three_text]"
proof -
  have c: "contentDiv huge_page = Some [par_of (filler 16000)]"
    and f: "firstHeading huge_page = Some (par_of (js ''Test''))"
    by (simp_all add: huge_page_def)
  have p: "paragraphs [par_of (filler 16000)] = [Some (filler 16000)]"
    by (simp add: paragraphs_def par_of_def trim_filler substantial_def) (simp add: filler_def)
  have j: "join [LF, LF] (paragraphs [par_of (filler 16000)]) = filler 16000"
    by (simp add: p str_of_def)
  have l: "500 \<le> length (join [LF, LF] (paragraphs [par_of (filler 16000)]))"
    unfolding j by (simp add: filler_def)
  have t: "take 15000 (filler 16000) = filler 15000" "length (filler 16000) = 16000"
    by (simp_all add: filler_def)
  have c3: "contentDiv long_page = Some three_paragraphs"
    and f3: "firstHeading long_page = Some (par_of (js ''Test''))"
    by (simp_all add: long_page_def)
  have j3: "join [LF, LF] (paragraphs three_paragraphs) = three_text"
    by (simp add: paragraphs_three str_of_def three_text_def)
  have l3: "500 \<le> length (join [LF, LF] (paragraphs three_paragraphs))"
    unfolding j3 by (simp add: length_three_text)
  show ?thesis
    using article_text_truncated [OF demo_method demo_read_url demo_fetch_get demo_article_html
            demo_parse_html c demo_api_key l]
          article_text_truncated [OF demo_method demo_read_url demo_fetch_get demo_article_html
            demo_parse_html c3 demo_api_key l3]
    by (simp add: j t title_Test [OF f] j3 length_three_text title_Test [OF f3])
qed

text \<open>
  C8. When the article text, after the filter and the cut, is shorter than 500 code
  units, the handler answers with status 500 and the one field \<^verbatim>\<open>error\<close> saying
  that the content is too short, and the completion service is not called. With 500
  code units or more the extraction succeeds, and the request to the completion service
  is made as soon as the key is configured.
\<close>

theorem short_article_rejected:
  assumes "req_method req \<noteq> js ''OPTIONS''"
      and "read_url w req = Next wikipediaUrl"
      and "fetch w (Get wikipediaUrl) = Inr wikiResponse"
      and "article_html wikiResponse = Next html"
      and "parseFromString w html = Some doc"
      and "contentDiv doc = Some ps"
  shows "(length (articleText ps) < 500 \<longrightarrow>
            handler w req =
              (json_response 500 (error_body
                 (js ''Article content is too short to generate a meaningful quiz'')),
               [Get wikipediaUrl])
          \<and> status (fst (handler w req)) = 500
          \<and> body (fst (handler w req)) =
              Some (JObj [(js ''error'',
                JStr (js ''Article content is too short to generate a meaningful quiz''))])
          \<and> snd (handler w req) = [Get wikipediaUrl])
       \<and> (500 \<le> length (articleText ps) \<longrightarrow>
            extract_article w html = Next (extract_title doc, articleText ps)
          \<and> (\<forall>key. api_key w = Next key \<longrightarrow>
                snd (handler w req) =
                  [Get wikipediaUrl, ai_request key (extract_title doc) (articleText ps)]))"
proof (intro conjI impI allI)
  assume l: "length (articleText ps) < 500"
  with assms show h: "handler w req =
              (json_response 500 (error_body
                 (js ''Article content is too short to generate a meaningful quiz'')),
               [Get wikipediaUrl])"
    by (simp add: run extract_article_def)
  show "status (fst (handler w req)) = 500"
    by (simp add: h json_response_def)
  show "body (fst (handler w req)) =
              Some (JObj [(js ''error'',
                JStr (js ''Article content is too short to generate a meaningful quiz''))])"
    by (simp add: h json_response_def error_body_def)
  show "snd (handler w req) = [Get wikipediaUrl]"
    by (simp add: h)
next
  assume l: "500 \<le> length (articleText ps)"
  with assms(5,6) show e: "extract_article w html = Next (extract_title doc, articleText ps)"
    by (simp add: extract_article_def)
  fix key
  assume "api_key w = Next key"
  with assms(1-4) e show "snd (handler w req) =
      [Get wikipediaUrl, ai_request key (extract_title doc) (articleText ps)]"
    by (auto simp add: run split: sum.splits step.splits prod.splits)
qed

theorem short_article_rejected_witness:
  "status (fst (handler (demo_platform short_page (completed fenced_quiz)) (post_to demo_url)))
     = 500
   \<and> body (fst (handler (demo_platform short_page (completed fenced_quiz)) (post_to demo_url)))
     = Some (JObj [(js ''error'',
         JStr (js ''Article content is too short to generate a meaningful quiz''))])
   \<and> snd (handler (demo_platform short_page (completed fenced_quiz)) (post_to demo_url))
     = [Get demo_url]
   \<and> snd (handler (demo_platform long_page (completed fenced_quiz)) (post_to demo_url)) =
     [Get demo_url, ai_request (js ''secret'') (js ''Test'') three_text]"
proof -
  have c: "contentDiv short_page = Some [par_of (filler 60)]"
    by (simp add: short_page_def)
  have p: "paragraphs [par_of (filler 60)] = [Some (filler 60)]"
    by (simp add: paragraphs_def par_of_def trim_filler substantial_def) (simp add: filler_def)
  have l: "length (articleText [par_of (filler 60)]) < 500"
    by (simp add: articleText_def p slice0_def str_of_def) (simp add: filler_def)
  have c3: "contentDiv long_page = Some three_paragraphs"
    and f3: "firstHeading long_page = Some (par_of (js ''Test''))"
    by (simp_all add: long_page_def)
  have l3: "500 \<le> length (articleText three_paragraphs)"
    by (simp add: articleText_three length_three_text)
  show ?thesis
    using short_article_rejected [OF demo_method demo_read_url demo_fetch_get demo_article_html
            demo_parse_html c] l
          short_article_rejected [OF demo_method demo_read_url demo_fetch_get demo_article_html
            demo_parse_html c3] l3 demo_api_key [of long_page "completed fenced_quiz"]
    by (simp add: title_Test [OF f3] articleText_three json_response_def error_body_def)
qed

text \<open>
  C9, as amended. On the run that succeeds the handler answers with status 200. When
  the parsed completion is an object, the body sent is that object with
  \<^verbatim>\<open>wikipedia_url\<close> set to the \<^verbatim>\<open>wikipediaUrl\<close> of the request; every other
  property is sent as \<^verbatim>\<open>JSON.stringify\<close> writes it, in the same order: as it was
  parsed, but for a number that is not finite, which goes out as \<^verbatim>\<open>null\<close>, and
  negative zero, which goes out as \<^verbatim>\<open>0\<close>. When the parsed completion is an array,
  the body sent is the array alone, without \<^verbatim>\<open>wikipedia_url\<close>.
\<close>

theorem payload_of_parsed_value:
  assumes "req_method req \<noteq> js ''OPTIONS''"
      and "req_json req = Inr (JObj given)"
      and "map_of given (js ''wikipediaUrl'') = Some wikipediaUrl"
      and "read_url w req = Next wikipediaUrl"
      and "fetch w (Get wikipediaUrl) = Inr wikiResponse"
      and "article_html wikiResponse = Next html"
      and "extract_article w html = Next (title, text)"
      and "api_key w = Next key"
      and "fetch w (ai_request key title text) = Inr aiResponse"
      and "completion w aiResponse = Next generatedContent"
      and "parse_response w generatedContent = Next quizData"
  shows "(\<forall>kvs. quizData = JObj kvs \<longrightarrow>
            status (fst (handler w req)) = 200
          \<and> snd (handler w req) = [Get wikipediaUrl, ai_request key title text]
          \<and> (\<exists>entries. body (fst (handler w req)) = Some (JObj entries)
                \<and> map_of entries (js ''wikipedia_url'') = Some (as_sent wikipediaUrl)
                \<and> (\<forall>k. k \<noteq> js ''wikipedia_url'' \<longrightarrow>
                       map_of entries k = map_option as_sent (map_of kvs k))
                \<and> filter (\<lambda>p. fst p \<noteq> js ''wikipedia_url'') entries
                    = map (\<lambda>(k, v). (k, as_sent v))
                        (filter (\<lambda>p. fst p \<noteq> js ''wikipedia_url'') kvs)))
       \<and> (\<forall>xs. quizData = JArr xs \<longrightarrow>
            status (fst (handler w req)) = 200
          \<and> snd (handler w req) = [Get wikipediaUrl, ai_request key title text]
          \<and> body (fst (handler w req)) = Some (JArr (map as_sent xs)))"
proof (intro conjI allI impI)
  fix kvs
  assume q: "quizData = JObj kvs"
  let ?set = "AList.update (js ''wikipedia_url'') wikipediaUrl kvs"
  have h: "handler w req =
            (json_response 200 (JObj ?set), [Get wikipediaUrl, ai_request key title text])"
    using assms(1,4-10) assms(11) [unfolded q] by (rule success_run)
  show "status (fst (handler w req)) = 200"
    by (simp add: h json_response_def)
  show "snd (handler w req) = [Get wikipediaUrl, ai_request key title text]"
    by (simp add: h)
  show "\<exists>entries. body (fst (handler w req)) = Some (JObj entries)
                \<and> map_of entries (js ''wikipedia_url'') = Some (as_sent wikipediaUrl)
                \<and> (\<forall>k. k \<noteq> js ''wikipedia_url'' \<longrightarrow>
                       map_of entries k = map_option as_sent (map_of kvs k))
                \<and> filter (\<lambda>p. fst p \<noteq> js ''wikipedia_url'') entries
                    = map (\<lambda>(k, v). (k, as_sent v))
                        (filter (\<lambda>p. fst p \<noteq> js ''wikipedia_url'') kvs)"
  proof (intro exI conjI)
    show "body (fst (handler w req)) = Some (JObj (map (\<lambda>(k, v). (k, as_sent v)) ?set))"
      by (simp add: h json_response_def)
  qed (simp_all add: map_of_as_sent update_conv' as_sent_other_entries update_other_entries)
next
  fix xs
  assume q: "quizData = JArr xs"
  have h: "handler w req =
            (json_response 200 (JArr xs), [Get wikipediaUrl, ai_request key title text])"
    using assms(1,4-10) assms(11) [unfolded q] by (rule array_run)
  show "status (fst (handler w req)) = 200"
    by (simp add: h json_response_def)
  show "snd (handler w req) = [Get wikipediaUrl, ai_request key title text]"
    by (simp add: h)
  show "body (fst (handler w req)) = Some (JArr (map as_sent xs))"
    by (simp add: h json_response_def)
qed

theorem payload_of_parsed_value_witness:
  "status (fst (handler (demo_platform long_page (completed fenced_quiz)) (post_to demo_url)))
     = 200
   \<and> (\<exists>entries.
         body (fst (handler (demo_platform long_page (completed fenced_quiz))
                      (post_to demo_url))) = Some (JObj entries)
       \<and> map_of entries (js ''wikipedia_url'') = Some demo_url
       \<and> (\<forall>k. k \<noteq> js ''wikipedia_url'' \<longrightarrow>
              map_of entries k = map_option as_sent (map_of quiz_value k))
       \<and> filter (\<lambda>p. fst p \<noteq> js ''wikipedia_url'') entries
           = map (\<lambda>(k, v). (k, as_sent v))
               (filter (\<lambda>p. fst p \<noteq> js ''wikipedia_url'') quiz_value))
   \<and> status (fst (handler (demo_platform long_page (completed array_text)) (post_to demo_url)))
     = 200
   \<and> body (fst (handler (demo_platform long_page (completed array_text)) (post_to demo_url)))
     = Some (JArr (map as_sent array_value))"
proof -
  have b: "req_json (post_to demo_url) = Inr (JObj [(js ''wikipediaUrl'', demo_url)])"
    by (simp add: post_to_def)
  have g: "map_of [(js ''wikipediaUrl'', demo_url)] (js ''wikipediaUrl'') = Some demo_url"
    by simp
  show ?thesis
    using payload_of_parsed_value [OF demo_method b g demo_read_url demo_fetch_get
            demo_article_html demo_extract_long demo_api_key demo_fetch_post
            demo_completion [OF parse_envelope_fenced] demo_parse_fenced]
          payload_of_parsed_value [OF demo_method b g demo_read_url demo_fetch_get
            demo_article_html demo_extract_long demo_api_key demo_fetch_post
            demo_completion [OF parse_envelope_array]
            demo_parse_plain [OF array_text_lexical parse_array_text]]
    by (simp add: as_sent_demo_url)
qed

text \<open>
  C9, as stated, fails on two runs that succeed. The completion service writes an array:
  the handler sends the array with status 200, and there is no \<^verbatim>\<open>wikipedia_url\<close>
  in it. The completion service writes an object with the number \<^verbatim>\<open>1e999\<close>: it is
  parsed as infinity and sent as \<^verbatim>\<open>null\<close>.
\<close>

theorem array_sent_without_url:
  "status (fst (handler (demo_platform long_page (completed array_text)) (post_to demo_url)))
     = 200
   \<and> body (fst (handler (demo_platform long_page (completed array_text)) (post_to demo_url)))
     = Some (JArr [JObj [(js ''answer'', JStr (js ''A''))]])
   \<and> get_named (js ''wikipedia_url'') (Some (JArr [JObj [(js ''answer'', JStr (js ''A''))]]))
     = Inr None
   \<and> parse_response (demo_platform long_page (completed overflow_text))
        (Some (JStr overflow_text))
     = Next (JObj [(js ''score'', JNum 0x7FF0000000000000)])
   \<and> status (fst (handler (demo_platform long_page (completed overflow_text))
                    (post_to demo_url)))
     = 200
   \<and> body (fst (handler (demo_platform long_page (completed overflow_text))
                  (post_to demo_url)))
     = Some (JObj [(js ''score'', JNull), (js ''wikipedia_url'', demo_url)])"
proof -
  have a: "handler (demo_platform long_page (completed array_text)) (post_to demo_url) =
          (json_response 200 (JArr array_value),
           [Get demo_url, ai_request (js ''secret'') (js ''Test'') three_text])"
    by (rule array_run [OF demo_method demo_read_url demo_fetch_get demo_article_html
        demo_extract_long demo_api_key demo_fetch_post
          demo_completion [OF parse_envelope_array]
          demo_parse_plain [OF array_text_lexical parse_array_text]])
  have p: "parse_response (demo_platform long_page (completed overflow_text))
             (Some (JStr overflow_text)) = Next (JObj overflow_value)"
    by (rule demo_parse_plain [OF overflow_text_lexical parse_overflow_text])
  have o: "handler (demo_platform long_page (completed overflow_text)) (post_to demo_url) =
          (json_response 200
             (JObj (AList.update (js ''wikipedia_url'') demo_url overflow_value)),
           [Get demo_url, ai_request (js ''secret'') (js ''Test'') three_text])"
    by (rule success_run [OF demo_method demo_read_url demo_fetch_get demo_article_html
        demo_extract_long demo_api_key demo_fetch_post
          demo_completion [OF parse_envelope_overflow] p])
  have k: "js ''score'' \<noteq> js ''wikipedia_url''" by (simp add: js_def)
  have i: "non_finite 0x7FF0000000000000" by (simp add: non_finite_def)
  show ?thesis
    using p k
    by (simp add: a o i json_response_def array_value_def overflow_value_def
          as_sent_demo_url)
qed

text \<open>
  C10. A page that has the content container but no \<^verbatim>\<open>#firstHeading\<close> element, or
  one whose text is empty after trimming, does not fail for that: the title is
  \<^verbatim>\<open>Unknown Article\<close>, and the extraction goes on to the check of the length as
  for any page, giving title and text when that check passes.
\<close>

theorem missing_title_defaults:
  assumes "parseFromString w html = Some doc"
      and "contentDiv doc = Some ps"
      and "firstHeading doc = None
           \<or> (\<exists>h. firstHeading doc = Some h
                \<and> (case textContent h of None \<Rightarrow> True | Some t \<Rightarrow> trim t = []))"
  shows "extract_title doc = js ''Unknown Article''
       \<and> extract_article w html =
           (if length (articleText ps) < 500
            then Throw (ErrorObj
                   (js ''Article content is too short to generate a meaningful quiz''))
            else Next (js ''Unknown Article'', articleText ps))"
proof -
  have t: "extract_title doc = js ''Unknown Article''"
  proof (cases "firstHeading doc")
    case None
    then show ?thesis by (simp add: extract_title_def)
  next
    case (Some h)
    with assms(3) have "case textContent h of None \<Rightarrow> True | Some t \<Rightarrow> trim t = []"
      by simp
    with Some show ?thesis
      by (cases "textContent h") (simp_all add: extract_title_def)
  qed
  have "extract_article w html =
           (if length (articleText ps) < 500
            then Throw (ErrorObj
                   (js ''Article content is too short to generate a meaningful quiz''))
            else Next (extract_title doc, articleText ps))"
    using assms(1,2) by (simp add: extract_article_def)
  with t show ?thesis by simp
qed

theorem missing_title_defaults_witness:
  "extract_title untitled_page = js ''Unknown Article''
   \<and> extract_article (demo_platform untitled_page (completed fenced_quiz)) (js ''<html>'')
     = Next (js ''Unknown Article'', three_text)"
proof -
  have c: "contentDiv untitled_page = Some three_paragraphs"
    and f: "firstHeading untitled_page = None
           \<or> (\<exists>h. firstHeading untitled_page = Some h
                \<and> (case textContent h of None \<Rightarrow> True | Some t \<Rightarrow> trim t = []))"
    by (simp_all add: untitled_page_def)
  show ?thesis
    using missing_title_defaults [OF demo_parse_html c f]
    by (simp add: articleText_three length_three_text)
qed

end
